theory Spec2Isabelle
  imports Main
begin

section \<open>JavaScript values and objects\<close>

text \<open>
  The sources are TypeScript. Requests, transactions, options and receipts are plain
  JavaScript objects: ordered tables of named properties. A property that is missing
  reads as \<open>undefined\<close>, and an object spread \<open>{...a, ...b}\<close> copies the properties of
  \<open>a\<close> and then those of \<open>b\<close>, a later value replacing an earlier one in place.
  Numbers are modelled as integers (identifiers and counts are the only numbers here).
\<close>

datatype jsval =
    Undefined
  | Null
  | Bool bool
  | Num int
  | Str string
  | Arr "jsval list"
  | Obj "(string \<times> jsval) list"

type_synonym obj = "(string \<times> jsval) list"

fun get :: "obj \<Rightarrow> string \<Rightarrow> jsval" where
  "get [] k = Undefined"
| "get ((k', v) # ps) k = (if k' = k then v else get ps k)"

fun put :: "string \<Rightarrow> jsval \<Rightarrow> obj \<Rightarrow> obj" where
  "put k v [] = [(k, v)]"
| "put k v ((k', v') # ps) = (if k' = k then (k, v) # ps else (k', v') # put k v ps)"

definition spread :: "obj \<Rightarrow> obj \<Rightarrow> obj" where
  "spread target source = fold (\<lambda>(k, v). put k v) source target"

fun truthy :: "jsval \<Rightarrow> bool" where
  "truthy Undefined = False"
| "truthy Null = False"
| "truthy (Bool b) = b"
| "truthy (Num n) = (n \<noteq> 0)"
| "truthy (Str s) = (s \<noteq> [])"
| "truthy (Arr vs) = True"
| "truthy (Obj ps) = True"

section \<open>Web3Eth.getSha3 (packages/web3-eth/src/index.ts)\<close>

text \<open>
  The request manager is a collaborator: \<open>send\<close> maps a request object to the parsed
  response, or throws an error that carries a message (\<open>Inl\<close>). \<open>getSha3\<close> returns the
  requests it handed to the request manager together with its own outcome; the message
  of the error it throws is the fixed prefix followed by the message it caught.
  \<open>rpcOptions\<close> is optional (\<open>None\<close> is \<open>undefined\<close>).
\<close>

definition DEFAULT_JSON_RPC_VERSION :: jsval where
  "DEFAULT_JSON_RPC_VERSION = Str ''2.0''"

definition getSha3 ::
  "(obj \<Rightarrow> string + jsval) \<Rightarrow> string \<Rightarrow> obj option \<Rightarrow> obj list \<times> (string + jsval)" where
  "getSha3 send data rpcOptions =
     (let jsonrpc = (case rpcOptions of None \<Rightarrow> Undefined | Some ro \<Rightarrow> get ro ''jsonrpc'');
          request =
            put ''params'' (Arr [])
              (put ''jsonrpc'' (if truthy jsonrpc then jsonrpc else DEFAULT_JSON_RPC_VERSION)
                (put ''method'' (Str ''eth_sha3'')
                  (spread [] (case rpcOptions of None \<Rightarrow> [] | Some ro \<Rightarrow> ro))))
      in ([request],
          case send request of
            Inl message \<Rightarrow> Inl (''Error getting sha3 hash: '' @ message)
          | Inr response \<Rightarrow> Inr response))"

section \<open>The submission pipeline (sendTransaction, sendSignedTransaction)\<close>

subsection \<open>Lifecycle events, errors and the handle\<close>

datatype error =
    ValidationError string
  | PricingError string
  | TransportError string
  | TimeoutError string

datatype tag = Sending | Sent | TransactionHash | Receipt | Confirmation | Error

datatype payload =
    PTransaction obj
  | PBytes string
  | PHash string
  | PReceipt obj
  | PConfirmation nat
  | PError error

text \<open>
  What one submission does is recorded, in the order in which it happens, as a trace:
  the return of the handle to the caller, the listeners the caller attaches, every call
  of \<open>promiEvent.emit\<close> with the listeners it invokes, every call handed to a collaborator,
  the call of \<open>resolve\<close>, and the rejection of the detached \<open>async\<close> body, which nothing
  awaits (\<open>(async () => { ... })() as unknown\<close>).
\<close>

datatype call =
    GetTransactionGasPricing obj
  | RpcSendTransaction obj
  | RpcSendRawTransaction string
  | RpcGetTransactionReceipt string
  | WaitForTransactionReceipt string
  | WatchTransactionForConfirmations obj string

datatype action =
    Returned
  | Attached tag nat
  | Emitted tag payload "nat list"
  | Called call
  | Resolved obj
  | Unhandled error

datatype settlement = Pending | Fulfilled obj | Rejected error

record world =
  listeners :: "(tag \<times> nat) list"
  trace :: "action list"
  result :: settlement

text \<open>Modelled from the spec: the \<open>PromiEvent\<close> class (package web3-common) is not among the
  sources. It is a promise that is also an event emitter: a listener-registration table
  consulted at emission time only, with no buffering and no replay, and a result settled
  at most once. Listeners are identified by numbers. \<open>created\<close> is the handle as
  \<open>new PromiEvent(executor)\<close> hands it to the caller: no listener, result pending.
\<close>

definition created :: world where
  "created = \<lparr>listeners = [], trace = [Returned], result = Pending\<rparr>"

text \<open>Modelled from the spec: \<open>PromiEvent.on\<close>, called once for each listener of the list.
  The registration table grows; nothing is replayed to a new listener.
\<close>

definition attach :: "(tag \<times> nat) list \<Rightarrow> world \<Rightarrow> world" where
  "attach ls w =
     w\<lparr>listeners := listeners w @ ls, trace := trace w @ map (\<lambda>(t, l). Attached t l) ls\<rparr>"

text \<open>Modelled from the spec: the listeners registered for a tag at this moment, in order
  of registration, and their number (\<open>PromiEvent.listenerCount\<close>).
\<close>

definition registered :: "tag \<Rightarrow> world \<Rightarrow> nat list" where
  "registered t w = map snd (filter (\<lambda>(t', l). t' = t) (listeners w))"

definition listenerCount :: "tag \<Rightarrow> world \<Rightarrow> nat" where
  "listenerCount t w = length (registered t w)"

text \<open>Modelled from the spec: \<open>PromiEvent.emit\<close>. The listeners registered for the tag at
  this moment are invoked, once for each registration; nothing is kept for later ones.
\<close>

definition emit :: "tag \<Rightarrow> payload \<Rightarrow> world \<Rightarrow> world" where
  "emit t p w = w\<lparr>trace := trace w @ [Emitted t p (registered t w)]\<rparr>"

text \<open>Modelled from the spec: the \<open>resolve\<close> function the executor receives. It settles a
  pending result and does nothing to a settled one.
\<close>

definition resolve :: "obj \<Rightarrow> world \<Rightarrow> world" where
  "resolve r w =
     (if result w = Pending then w\<lparr>result := Fulfilled r, trace := trace w @ [Resolved r]\<rparr>
      else w)"

text \<open>
  A call handed to a collaborator, and the rejection of the detached body, are only
  recorded.
\<close>

definition called :: "call \<Rightarrow> world \<Rightarrow> world" where
  "called c w = w\<lparr>trace := trace w @ [Called c]\<rparr>"

definition unhandled :: "error \<Rightarrow> world \<Rightarrow> world" where
  "unhandled e w = w\<lparr>trace := trace w @ [Unhandled e]\<rparr>"

text \<open>
  The pattern \<open>if (promiEvent.listenerCount(t) > 0) { promiEvent.emit(t, p); }\<close>, which
  \<open>sendTransaction\<close> uses for \<open>sending\<close>, \<open>sent\<close> and \<open>transactionHash\<close> (lines 283-285,
  295-297 and 299-301).
\<close>

definition emitIfListened :: "tag \<Rightarrow> payload \<Rightarrow> world \<Rightarrow> world" where
  "emitIfListened t p w = (if listenerCount t w > 0 then emit t p w else w)"

subsection \<open>Collaborators and the caller\<close>

text \<open>
  The functions the pipeline imports are not among the sources and are parameters of the
  model. An awaited call either fulfils (\<open>Inr\<close>) or rejects (\<open>Inl\<close>).
  \<open>getTransactionGasPricing\<close> fulfils with an object of pricing fields or with
  \<open>undefined\<close> (\<open>None\<close>); \<open>rpcMethods.getTransactionReceipt\<close> fulfils with a receipt or
  with \<open>null\<close> (\<open>None\<close>). \<open>formatTransaction\<close> is the formatter, pure and taken as total.
  \<open>confirmations\<close> gives the confirmation counts that the confirmation watcher observes
  for a receipt.
\<close>

record env =
  formatTransaction :: "obj \<Rightarrow> obj"
  getTransactionGasPricing :: "obj \<Rightarrow> error + obj option"
  rpc_sendTransaction :: "obj \<Rightarrow> error + string"
  rpc_sendRawTransaction :: "string \<Rightarrow> error + string"
  rpc_getTransactionReceipt :: "string \<Rightarrow> error + obj option"
  waitForTransactionReceipt :: "string \<Rightarrow> error + obj"
  confirmations :: "obj \<Rightarrow> string \<Rightarrow> nat list"

text \<open>
  The caller's code runs only while the pipeline is suspended. A schedule gives the
  listeners the caller attaches at each suspension point:
  0 between the return of the handle and the \<open>setImmediate\<close> callback,
  1 while \<open>getTransactionGasPricing\<close> is awaited,
  2 while the broadcast is awaited,
  3 while the first \<open>getTransactionReceipt\<close> is awaited,
  4 while \<open>waitForTransactionReceipt\<close> is awaited,
  5 after \<open>watchTransactionForConfirmations\<close> has been called.
  A suspension point that a run does not reach attaches nothing. Listeners are assumed
  not to throw and are never removed.
\<close>

type_synonym schedule = "nat \<Rightarrow> (tag \<times> nat) list"

text \<open>Modelled from the spec: \<open>watchTransactionForConfirmations\<close> is not among the sources.
  Once called it emits \<open>confirmation\<close> on the handle with each confirmation count it
  observes (\<open>confirmations env receipt hash\<close>), and never settles a result.
\<close>

definition watchTransactionForConfirmations ::
  "env \<Rightarrow> schedule \<Rightarrow> obj \<Rightarrow> string \<Rightarrow> world \<Rightarrow> world" where
  "watchTransactionForConfirmations env sched transactionReceipt transactionHash w =
     fold (\<lambda>n. emit Confirmation (PConfirmation n))
       (confirmations env transactionReceipt transactionHash)
       (attach (sched 5)
         (called (WatchTransactionForConfirmations transactionReceipt transactionHash) w))"

subsection \<open>The two entry points\<close>

text \<open>
  The condition of lines 268-273:
  \<open>!options?.ignoreGasPricing && transaction.gasPrice === undefined &&
    (transaction.maxPriorityFeePerGas === undefined || transaction.maxFeePerGas === undefined)\<close>.
  \<open>options\<close> is optional (\<open>None\<close> is \<open>undefined\<close>).
\<close>

definition needsGasPricing :: "obj \<Rightarrow> obj option \<Rightarrow> bool" where
  "needsGasPricing transaction options \<longleftrightarrow>
     \<not> truthy (case options of None \<Rightarrow> Undefined | Some os \<Rightarrow> get os ''ignoreGasPricing'') \<and>
     get transaction ''gasPrice'' = Undefined \<and>
     (get transaction ''maxPriorityFeePerGas'' = Undefined \<or>
      get transaction ''maxFeePerGas'' = Undefined)"

text \<open>
  Lines 268-281: the value of \<open>_transaction\<close> after the pricing step, with the world as
  it is when the step ends; \<open>Inl\<close> when the awaited call rejects.
\<close>

definition resolveGasPricing ::
  "env \<Rightarrow> schedule \<Rightarrow> obj \<Rightarrow> obj option \<Rightarrow> world \<Rightarrow> (error + obj) \<times> world" where
  "resolveGasPricing env sched transaction options w =
     (let tx0 = formatTransaction env transaction in
      if needsGasPricing transaction options then
        (let w1 = attach (sched 1) (called (GetTransactionGasPricing tx0) w) in
         case getTransactionGasPricing env tx0 of
           Inl e \<Rightarrow> (Inl e, w1)
         | Inr pricing \<Rightarrow>
             (Inr (spread (spread [] tx0) (case pricing of None \<Rightarrow> [] | Some ps \<Rightarrow> ps)), w1))
      else (Inr tx0, w))"

text \<open>
  Lines 303-313 and 351-361, the same in both entry points: one query for the receipt
  and, when it answers \<open>null\<close>, the wait for it.
\<close>

definition awaitReceipt ::
  "env \<Rightarrow> schedule \<Rightarrow> string \<Rightarrow> world \<Rightarrow> (error + obj) \<times> world" where
  "awaitReceipt env sched transactionHash w =
     (let w1 = attach (sched 3) (called (RpcGetTransactionReceipt transactionHash) w) in
      case rpc_getTransactionReceipt env transactionHash of
        Inl e \<Rightarrow> (Inl e, w1)
      | Inr (Some transactionReceipt) \<Rightarrow> (Inr transactionReceipt, w1)
      | Inr None \<Rightarrow>
          (waitForTransactionReceipt env transactionHash,
           attach (sched 4) (called (WaitForTransactionReceipt transactionHash) w1)))"

text \<open>
  \<open>sendTransaction\<close> (lines 253-332). The executor of the \<open>PromiEvent\<close> only schedules the
  body with \<open>setImmediate\<close>, so the handle is returned (\<open>created\<close>) and the caller runs
  (\<open>sched 0\<close>) before the body starts. The executor takes \<open>resolve\<close> only: the body has
  no \<open>reject\<close> and no \<open>catch\<close>, so an awaited call that rejects ends the body with an
  unhandled rejection.
\<close>

definition sendTransaction :: "env \<Rightarrow> schedule \<Rightarrow> obj \<Rightarrow> obj option \<Rightarrow> world" where
  "sendTransaction env sched transaction options =
     (case resolveGasPricing env sched transaction options (attach (sched 0) created) of
        (Inl e, w) \<Rightarrow> unhandled e w
      | (Inr tx, w1) \<Rightarrow>
          (let w2 = emitIfListened Sending (PTransaction tx) w1;
               w3 = attach (sched 2) (called (RpcSendTransaction tx) w2)
           in case rpc_sendTransaction env tx of
                Inl e \<Rightarrow> unhandled e w3
              | Inr transactionHash \<Rightarrow>
                  (let w4 = emitIfListened Sent (PTransaction tx) w3;
                       w5 = emitIfListened TransactionHash (PHash transactionHash) w4
                   in case awaitReceipt env sched transactionHash w5 of
                        (Inl e, w) \<Rightarrow> unhandled e w
                      | (Inr transactionReceipt, w6) \<Rightarrow>
                          (let w7 = resolve transactionReceipt
                                      (emit Receipt (PReceipt transactionReceipt) w6)
                           in if listenerCount Confirmation w7 > 0
                              then watchTransactionForConfirmations env sched
                                     transactionReceipt transactionHash w7
                              else w7))))"

text \<open>\<open>sendSignedTransaction\<close> (lines 334-378): no pricing step and no listener counts.\<close>

definition sendSignedTransaction :: "env \<Rightarrow> schedule \<Rightarrow> string \<Rightarrow> world" where
  "sendSignedTransaction env sched transaction =
     (let w1 = emit Sending (PBytes transaction) (attach (sched 0) created);
          w2 = attach (sched 2) (called (RpcSendRawTransaction transaction) w1)
      in case rpc_sendRawTransaction env transaction of
           Inl e \<Rightarrow> unhandled e w2
         | Inr transactionHash \<Rightarrow>
             (let w3 = emit Sent (PBytes transaction) w2;
                  w4 = emit TransactionHash (PHash transactionHash) w3
              in case awaitReceipt env sched transactionHash w4 of
                   (Inl e, w) \<Rightarrow> unhandled e w
                 | (Inr transactionReceipt, w5) \<Rightarrow>
                     watchTransactionForConfirmations env sched transactionReceipt
                       transactionHash
                       (resolve transactionReceipt
                         (emit Receipt (PReceipt transactionReceipt) w5))))"

subsection \<open>Reading a trace\<close>

text \<open>The tags of the events emitted, in order of emission.\<close>

fun emitted :: "action list \<Rightarrow> tag list" where
  "emitted [] = []"
| "emitted (Emitted t p ls # as) = t # emitted as"
| "emitted (a # as) = emitted as"

text \<open>
  The stage of the lifecycle an event belongs to: \<open>sending\<close> comes with the start of the
  broadcast, \<open>sent\<close> and \<open>transactionHash\<close> with its answer, \<open>receipt\<close> with inclusion,
  \<open>confirmation\<close> with the blocks after it; \<open>error\<close> is terminal.
\<close>

fun stage :: "tag \<Rightarrow> nat" where
  "stage Sending = 0"
| "stage Sent = 1"
| "stage TransactionHash = 1"
| "stage Receipt = 2"
| "stage Confirmation = 3"
| "stage Error = 4"

text \<open>How many times the callback of listener \<open>l\<close> for tag \<open>t\<close> has been invoked.\<close>

fun deliveries :: "tag \<Rightarrow> nat \<Rightarrow> action list \<Rightarrow> nat" where
  "deliveries t l [] = 0"
| "deliveries t l (Emitted t' p ls # as) =
     (if t' = t then count_list ls l else 0) + deliveries t l as"
| "deliveries t l (a # as) = deliveries t l as"

text \<open>The calls handed to collaborators, in order.\<close>

fun calls :: "action list \<Rightarrow> call list" where
  "calls [] = []"
| "calls (Called c # as) = c # calls as"
| "calls (a # as) = calls as"

text \<open>
  The events emitted so far are in the order of their stages and none is of a stage
  later than \<open>k\<close>.
\<close>

definition orderedUpTo :: "nat \<Rightarrow> world \<Rightarrow> bool" where
  "orderedUpTo k w \<longleftrightarrow>
     sorted (map stage (emitted (trace w))) \<and>
     list_all (\<lambda>t. stage t \<le> k) (emitted (trace w))"

text \<open>
  Listener \<open>l\<close> is registered for tag \<open>t\<close> and has been invoked at every emission of
  \<open>t\<close> so far.
\<close>

definition hears :: "tag \<Rightarrow> nat \<Rightarrow> world \<Rightarrow> bool" where
  "hears t l w \<longleftrightarrow>
     l \<in> set (registered t w) \<and>
     list_all (\<lambda>a. case a of Emitted t' p ls \<Rightarrow> t' \<noteq> t \<or> l \<in> set ls | _ \<Rightarrow> True) (trace w)"

text \<open>Every event emitted so far, \<open>receipt\<close> apart, was emitted to at least one listener.\<close>

definition gated :: "world \<Rightarrow> bool" where
  "gated w \<longleftrightarrow>
     list_all (\<lambda>a. case a of Emitted t p ls \<Rightarrow> t = Receipt \<or> ls \<noteq> [] | _ \<Rightarrow> True) (trace w)"

text \<open>
  The last suspension point before the event of a tag is emitted: a listener attached
  up to that point is attached before the stage completes.
\<close>

fun lastPoint :: "tag \<Rightarrow> nat" where
  "lastPoint Sending = 1"
| "lastPoint Sent = 2"
| "lastPoint TransactionHash = 2"
| "lastPoint Receipt = 4"
| "lastPoint Confirmation = 5"
| "lastPoint Error = 5"

text \<open>
  Bookkeeping for one listener \<open>l\<close> of tag \<open>t\<close> that the caller attaches at suspension
  point \<open>k\<close>, in a world whose next suspension point is \<open>p\<close> or later: every event
  emitted so far has its last suspension point before \<open>p\<close>; the listener has been
  invoked as many times as events of its tag were emitted, times the number of its
  registrations; and it is registered at most once, and not at all while point \<open>k\<close> is
  still to come.
\<close>

definition served :: "tag \<Rightarrow> nat \<Rightarrow> nat \<Rightarrow> nat \<Rightarrow> world \<Rightarrow> bool" where
  "served t l k p w \<longleftrightarrow>
     list_all (\<lambda>t'. lastPoint t' < p) (emitted (trace w)) \<and>
     deliveries t l (trace w) =
       count_list (emitted (trace w)) t * count_list (listeners w) (t, l) \<and>
     (if k < p then count_list (listeners w) (t, l) \<le> 1
      else count_list (listeners w) (t, l) = 0)"

subsection \<open>The receipt poller\<close>

text \<open>Modelled from the spec: \<open>waitForTransactionReceipt\<close> is not among the sources. The
  Receipt Poller queries for the receipt once per attempt; an absent (\<open>null\<close>) receipt is
  not an error and leads to the next attempt, any error of the query is forwarded at
  once, and the poller ends with a timeout failure when the budget of attempts is used
  up with the receipt still absent. \<open>query i\<close> is the node's answer to attempt \<open>i\<close>.
\<close>

fun poll :: "(nat \<Rightarrow> error + obj option) \<Rightarrow> nat \<Rightarrow> nat \<Rightarrow> error + obj" where
  "poll query 0 i = Inl (TimeoutError ''transaction receipt polling timed out'')"
| "poll query (Suc budget) i =
     (case query i of
        Inl e \<Rightarrow> Inl e
      | Inr None \<Rightarrow> poll query budget (Suc i)
      | Inr (Some transactionReceipt) \<Rightarrow> Inr transactionReceipt)"

subsection \<open>A node and two requests for the examples\<close>

definition receipt10 :: obj where
  "receipt10 = [(''blockNumber'', Num 10), (''status'', Bool True)]"

definition node :: env where
  "node = \<lparr>formatTransaction = (\<lambda>t. t),
           getTransactionGasPricing = (\<lambda>t. Inr (Some [(''gasPrice'', Str ''0x1'')])),
           rpc_sendTransaction = (\<lambda>t. Inr ''0xdead''),
           rpc_sendRawTransaction = (\<lambda>b. Inr ''0xdead''),
           rpc_getTransactionReceipt = (\<lambda>h. Inr None),
           waitForTransactionReceipt = (\<lambda>h. Inr receipt10),
           confirmations = (\<lambda>r h. [1, 2])\<rparr>"

definition unpriced :: obj where
  "unpriced = [(''to'', Str ''0xabc''), (''value'', Num 1)]"

definition priced :: obj where
  "priced = [(''to'', Str ''0xabc''), (''value'', Num 1), (''gasPrice'', Str ''0x2'')]"

text \<open>A caller that attaches one listener for every tag as soon as it has the handle.\<close>

definition eager :: schedule where
  "eager k = (if k = 0 then [(Sending, 0), (Sent, 1), (TransactionHash, 2), (Receipt, 3),
                              (Confirmation, 4), (Error, 5)] else [])"

text \<open>A caller that attaches nothing.\<close>

definition silent :: schedule where
  "silent k = []"

section \<open>Properties\<close>

subsection \<open>Effects of the operations on the handle\<close>

lemma attach_simps:
  "listeners (attach ls w) = listeners w @ ls"
  "trace (attach ls w) = trace w @ map (\<lambda>(t, l). Attached t l) ls"
  "result (attach ls w) = result w"
  by (simp_all add: attach_def)

lemma emit_simps:
  "listeners (emit t p w) = listeners w"
  "trace (emit t p w) = trace w @ [Emitted t p (registered t w)]"
  "result (emit t p w) = result w"
  by (simp_all add: emit_def)

lemma called_simps:
  "listeners (called c w) = listeners w"
  "trace (called c w) = trace w @ [Called c]"
  "result (called c w) = result w"
  by (simp_all add: called_def)

lemma unhandled_simps:
  "listeners (unhandled e w) = listeners w"
  "trace (unhandled e w) = trace w @ [Unhandled e]"
  "result (unhandled e w) = result w"
  by (simp_all add: unhandled_def)

lemma resolve_simps:
  "listeners (resolve r w) = listeners w"
  "trace (resolve r w) = (if result w = Pending then trace w @ [Resolved r] else trace w)"
  "result (resolve r w) = (if result w = Pending then Fulfilled r else result w)"
  by (simp_all add: resolve_def)

lemma emitIfListened_simps:
  "listeners (emitIfListened t p w) = listeners w"
  "trace (emitIfListened t p w) =
     trace w @ (if registered t w = [] then [] else [Emitted t p (registered t w)])"
  "result (emitIfListened t p w) = result w"
  by (simp_all add: emitIfListened_def listenerCount_def emit_def)

lemma created_simps:
  "listeners created = []" "trace created = [Returned]" "result created = Pending"
  by (simp_all add: created_def)

lemma registered_simps:
  "registered t (attach ls w) = registered t w @ map snd (filter (\<lambda>(t', l). t' = t) ls)"
  "registered t (emit t' p w) = registered t w"
  "registered t (called c w) = registered t w"
  "registered t (emitIfListened t' p w) = registered t w"
  "registered t (resolve r w) = registered t w"
  "registered t (unhandled e w) = registered t w"
  "registered t created = []"
  by (simp_all add: registered_def attach_simps emit_simps called_simps resolve_simps
      unhandled_simps created_simps emitIfListened_simps)

lemma fold_emit_simps:
  "listeners (fold (\<lambda>n. emit t (f n)) ns w) = listeners w"
  "trace (fold (\<lambda>n. emit t (f n)) ns w) =
     trace w @ map (\<lambda>n. Emitted t (f n) (registered t w)) ns"
  "result (fold (\<lambda>n. emit t (f n)) ns w) = result w"
  "registered t' (fold (\<lambda>n. emit t (f n)) ns w) = registered t' w"
  by (induction ns arbitrary: w) (simp_all add: emit_simps registered_simps)

lemma watch_simps:
  "listeners (watchTransactionForConfirmations env sched r h w) = listeners w @ sched 5"
  "trace (watchTransactionForConfirmations env sched r h w) =
     trace w @ Called (WatchTransactionForConfirmations r h)
       # map (\<lambda>(t, l). Attached t l) (sched 5)
       @ map (\<lambda>n. Emitted Confirmation (PConfirmation n)
                (registered Confirmation w
                   @ map snd (filter (\<lambda>(t', l). t' = Confirmation) (sched 5))))
           (confirmations env r h)"
  "result (watchTransactionForConfirmations env sched r h w) = result w"
  "registered t (watchTransactionForConfirmations env sched r h w) =
     registered t w @ map snd (filter (\<lambda>(t', l). t' = t) (sched 5))"
  by (simp_all add: watchTransactionForConfirmations_def fold_emit_simps attach_simps
      called_simps registered_simps)

lemma emitted_append: "emitted (xs @ ys) = emitted xs @ emitted ys"
  by (induction xs rule: emitted.induct) simp_all

lemma emitted_attached: "emitted (map (\<lambda>(t, l). Attached t l) ls) = []"
  by (induction ls) auto

lemma emitted_confirmations:
  "emitted (map (\<lambda>n. Emitted t (f n) (g n)) ns) = replicate (length ns) t"
  by (induction ns) auto

lemmas world_simps = attach_simps emit_simps emitIfListened_simps called_simps
  unhandled_simps resolve_simps created_simps registered_simps watch_simps listenerCount_def

lemma resolveGasPricing_simps:
  "trace (snd (resolveGasPricing env sched tr opts w)) =
     trace w @ (if needsGasPricing tr opts
                then Called (GetTransactionGasPricing (formatTransaction env tr))
                       # map (\<lambda>(t, l). Attached t l) (sched 1)
                else [])"
  "listeners (snd (resolveGasPricing env sched tr opts w)) =
     listeners w @ (if needsGasPricing tr opts then sched 1 else [])"
  "result (snd (resolveGasPricing env sched tr opts w)) = result w"
  by (simp_all add: resolveGasPricing_def Let_def attach_simps called_simps split: sum.splits)

lemma awaitReceipt_simps:
  "trace (snd (awaitReceipt env sched h w)) =
     trace w @ Called (RpcGetTransactionReceipt h) # map (\<lambda>(t, l). Attached t l) (sched 3)
       @ (if rpc_getTransactionReceipt env h = Inr None
          then Called (WaitForTransactionReceipt h) # map (\<lambda>(t, l). Attached t l) (sched 4)
          else [])"
  "listeners (snd (awaitReceipt env sched h w)) =
     listeners w @ sched 3
       @ (if rpc_getTransactionReceipt env h = Inr None then sched 4 else [])"
  "result (snd (awaitReceipt env sched h w)) = result w"
  by (simp_all add: awaitReceipt_def Let_def attach_simps called_simps
      split: sum.splits option.splits)

lemma registered_stage_simps:
  "registered t (snd (resolveGasPricing env sched tr opts w)) =
     registered t w
       @ (if needsGasPricing tr opts then map snd (filter (\<lambda>(t', l). t' = t) (sched 1))
          else [])"
  "registered t (snd (awaitReceipt env sched h w)) =
     registered t w @ map snd (filter (\<lambda>(t', l). t' = t) (sched 3))
       @ (if rpc_getTransactionReceipt env h = Inr None
          then map snd (filter (\<lambda>(t', l). t' = t) (sched 4)) else [])"
  by (simp_all add: registered_def resolveGasPricing_simps awaitReceipt_simps)

lemmas trace_simps = world_simps resolveGasPricing_simps awaitReceipt_simps
  registered_stage_simps emitted_append emitted_attached emitted_confirmations

lemma resolveGasPricing_fst:
  "fst (resolveGasPricing env sched tr opts w) =
     (if needsGasPricing tr opts
      then (case getTransactionGasPricing env (formatTransaction env tr) of
              Inl e \<Rightarrow> Inl e
            | Inr pricing \<Rightarrow>
                Inr (spread (spread [] (formatTransaction env tr))
                       (case pricing of None \<Rightarrow> [] | Some ps \<Rightarrow> ps)))
      else Inr (formatTransaction env tr))"
  by (simp add: resolveGasPricing_def Let_def split: sum.splits)

lemma awaitReceipt_fst:
  "fst (awaitReceipt env sched h w) =
     (case rpc_getTransactionReceipt env h of
        Inl e \<Rightarrow> Inl e
      | Inr None \<Rightarrow> waitForTransactionReceipt env h
      | Inr (Some r) \<Rightarrow> Inr r)"
  by (simp add: awaitReceipt_def Let_def split: sum.splits option.splits)

lemmas example_defs = node_def eager_def silent_def unpriced_def priced_def receipt10_def

lemmas run_simps = sendTransaction_def sendSignedTransaction_def case_prod_beta trace_simps
  resolveGasPricing_fst awaitReceipt_fst needsGasPricing_def spread_def example_defs

subsection \<open>The ways a submission can end\<close>

text \<open>
  A run of \<open>sendTransaction\<close> ends in one of four ways: the pricing step rejects, the
  broadcast rejects, the receipt is not obtained, or the transaction is mined.
\<close>

lemma sendTransaction_outcomes
    [case_names PricingRejected BroadcastRejected ReceiptRejected Mined]:
  fixes env sched transaction options
  defines "w1 \<equiv>
    snd (resolveGasPricing env sched transaction options (attach (sched 0) created))"
  obtains
    e where "fst (resolveGasPricing env sched transaction options (attach (sched 0) created))
               = Inl e"
      and "sendTransaction env sched transaction options = unhandled e w1"
  | tx e where "fst (resolveGasPricing env sched transaction options (attach (sched 0) created))
               = Inr tx"
      and "rpc_sendTransaction env tx = Inl e"
      and "sendTransaction env sched transaction options =
             unhandled e (attach (sched 2) (called (RpcSendTransaction tx)
               (emitIfListened Sending (PTransaction tx) w1)))"
  | tx h e where "fst (resolveGasPricing env sched transaction options (attach (sched 0) created))
               = Inr tx"
      and "rpc_sendTransaction env tx = Inr h"
      and "fst (awaitReceipt env sched h (emitIfListened TransactionHash (PHash h)
                 (emitIfListened Sent (PTransaction tx)
                   (attach (sched 2) (called (RpcSendTransaction tx)
                     (emitIfListened Sending (PTransaction tx) w1)))))) = Inl e"
      and "sendTransaction env sched transaction options =
             unhandled e (snd (awaitReceipt env sched h (emitIfListened TransactionHash (PHash h)
               (emitIfListened Sent (PTransaction tx)
                 (attach (sched 2) (called (RpcSendTransaction tx)
                   (emitIfListened Sending (PTransaction tx) w1)))))))"
  | tx h r w7 where "fst (resolveGasPricing env sched transaction options (attach (sched 0) created))
               = Inr tx"
      and "rpc_sendTransaction env tx = Inr h"
      and "w7 = resolve r (emit Receipt (PReceipt r)
                 (snd (awaitReceipt env sched h (emitIfListened TransactionHash (PHash h)
                   (emitIfListened Sent (PTransaction tx)
                     (attach (sched 2) (called (RpcSendTransaction tx)
                       (emitIfListened Sending (PTransaction tx) w1))))))))"
      and "sendTransaction env sched transaction options =
             (if listenerCount Confirmation w7 > 0
              then watchTransactionForConfirmations env sched r h w7 else w7)"
proof (cases "fst (resolveGasPricing env sched transaction options (attach (sched 0) created))")
  case (Inl e)
  then show ?thesis
    using that(1) [of e] by (simp add: sendTransaction_def case_prod_beta w1_def)
next
  case tx: (Inr tx)
  show ?thesis
  proof (cases "rpc_sendTransaction env tx")
    case (Inl e)
    then show ?thesis
      using that(2) [of tx e] tx by (simp add: sendTransaction_def case_prod_beta w1_def)
  next
    case h: (Inr h)
    let ?w5 = "emitIfListened TransactionHash (PHash h)
                 (emitIfListened Sent (PTransaction tx)
                   (attach (sched 2) (called (RpcSendTransaction tx)
                     (emitIfListened Sending (PTransaction tx) w1))))"
    show ?thesis
    proof (cases "fst (awaitReceipt env sched h ?w5)")
      case (Inl e)
      then show ?thesis
        using that(3) [of tx h e] tx h by (simp add: sendTransaction_def case_prod_beta w1_def)
    next
      case (Inr r)
      then show ?thesis
        using that(4)
          [of tx h "resolve r (emit Receipt (PReceipt r) (snd (awaitReceipt env sched h ?w5)))" r]
          tx h
        by (simp add: sendTransaction_def case_prod_beta w1_def Let_def)
    qed
  qed
qed

text \<open>A run of \<open>sendSignedTransaction\<close> ends in one of three ways.\<close>

lemma sendSignedTransaction_outcomes [case_names BroadcastRejected ReceiptRejected Mined]:
  fixes env sched transaction
  defines "w2 \<equiv> attach (sched 2) (called (RpcSendRawTransaction transaction)
                    (emit Sending (PBytes transaction) (attach (sched 0) created)))"
  obtains
    e where "rpc_sendRawTransaction env transaction = Inl e"
      and "sendSignedTransaction env sched transaction = unhandled e w2"
  | h e where "rpc_sendRawTransaction env transaction = Inr h"
      and "fst (awaitReceipt env sched h (emit TransactionHash (PHash h)
                 (emit Sent (PBytes transaction) w2))) = Inl e"
      and "sendSignedTransaction env sched transaction =
             unhandled e (snd (awaitReceipt env sched h (emit TransactionHash (PHash h)
               (emit Sent (PBytes transaction) w2))))"
  | h r where "rpc_sendRawTransaction env transaction = Inr h"
      and "fst (awaitReceipt env sched h (emit TransactionHash (PHash h)
                 (emit Sent (PBytes transaction) w2))) = Inr r"
      and "sendSignedTransaction env sched transaction =
             watchTransactionForConfirmations env sched r h
               (resolve r (emit Receipt (PReceipt r)
                 (snd (awaitReceipt env sched h (emit TransactionHash (PHash h)
                   (emit Sent (PBytes transaction) w2))))))"
proof (cases "rpc_sendRawTransaction env transaction")
  case (Inl e)
  then show ?thesis
    using that(1) [of e] by (simp add: sendSignedTransaction_def w2_def)
next
  case h: (Inr h)
  show ?thesis
  proof (cases "fst (awaitReceipt env sched h (emit TransactionHash (PHash h)
                 (emit Sent (PBytes transaction) w2)))")
    case (Inl e)
    then show ?thesis
      using that(2) [of h e] h by (simp add: sendSignedTransaction_def case_prod_beta w2_def)
  next
    case (Inr r)
    then show ?thesis
      using that(3) [of h r] h by (simp add: sendSignedTransaction_def case_prod_beta w2_def)
  qed
qed

subsection \<open>Scheduling of the first event\<close>

lemma hears_iff:
  "hears t l w \<longleftrightarrow>
     l \<in> set (registered t w) \<and> (\<forall>p ls. Emitted t p ls \<in> set (trace w) \<longrightarrow> l \<in> set ls)"
  unfolding hears_def list_all_iff by (auto split: action.splits)

lemma hears_attached: "(t, l) \<in> set ls \<Longrightarrow> hears t l (attach ls created)"
  by (force simp: hears_iff world_simps)

lemma hears_steps:
  "hears t l w \<Longrightarrow> hears t l (attach ls w)"
  "hears t l w \<Longrightarrow> hears t l (called c w)"
  "hears t l w \<Longrightarrow> hears t l (unhandled e w)"
  "hears t l w \<Longrightarrow> hears t l (resolve r w)"
  "hears t l w \<Longrightarrow> hears t l (emit t' p w)"
  "hears t l w \<Longrightarrow> hears t l (emitIfListened t' p w)"
  "hears t l w \<Longrightarrow> hears t l (snd (resolveGasPricing env sched tr opts w))"
  "hears t l w \<Longrightarrow> hears t l (snd (awaitReceipt env sched h w))"
  "hears t l w \<Longrightarrow> hears t l (watchTransactionForConfirmations env sched r h w)"
  by (auto simp: hears_iff trace_simps)

lemma hears_sendTransaction:
  assumes "(t, l) \<in> set (sched 0)"
  shows "hears t l (sendTransaction env sched transaction options)"
proof (cases rule: sendTransaction_outcomes [of env sched transaction options])
  case (Mined tx h r w7)
  have "hears t l w7"
    unfolding Mined(3) by (intro hears_steps hears_attached assms)
  then show ?thesis
    using Mined(4) hears_steps(9) by simp
qed (simp_all add: hears_steps hears_attached assms)

lemma hears_sendSignedTransaction:
  assumes "(t, l) \<in> set (sched 0)"
  shows "hears t l (sendSignedTransaction env sched bytes)"
  by (cases rule: sendSignedTransaction_outcomes [of env bytes sched])
    (simp_all add: hears_steps hears_attached assms)

lemma starts_sendTransaction:
  "\<exists>rest. trace (sendTransaction env sched transaction options) =
     Returned # map (\<lambda>(t, l). Attached t l) (sched 0) @ rest"
  by (cases rule: sendTransaction_outcomes [of env sched transaction options])
    (simp_all add: trace_simps)

lemma starts_sendSignedTransaction:
  "\<exists>rest. trace (sendSignedTransaction env sched bytes) =
     Returned # map (\<lambda>(t, l). Attached t l) (sched 0) @ rest"
  by (cases rule: sendSignedTransaction_outcomes [of env bytes sched])
    (simp_all add: trace_simps)

text \<open>
  C6. No lifecycle event is emitted before \<open>submit\<close> returns its handle: the trace of
  either entry point starts with the return of the handle, followed by the listeners the
  caller attaches at once, and everything emitted comes after them. Hence a listener
  attached immediately after the call is invoked at every emission of its tag.
\<close>

theorem first_event_after_return:
  "(\<exists>rest. trace (sendTransaction env sched transaction options) =
            Returned # map (\<lambda>(t, l). Attached t l) (sched 0) @ rest) \<and>
   (\<exists>rest. trace (sendSignedTransaction env sched bytes) =
            Returned # map (\<lambda>(t, l). Attached t l) (sched 0) @ rest) \<and>
   (\<forall>t l p ls. (t, l) \<in> set (sched 0) \<longrightarrow>
      Emitted t p ls \<in> set (trace (sendTransaction env sched transaction options)) \<longrightarrow>
      l \<in> set ls) \<and>
   (\<forall>t l p ls. (t, l) \<in> set (sched 0) \<longrightarrow>
      Emitted t p ls \<in> set (trace (sendSignedTransaction env sched bytes)) \<longrightarrow>
      l \<in> set ls)"
  using starts_sendTransaction [of env sched transaction options]
    starts_sendSignedTransaction [of env sched bytes]
    hears_sendTransaction [of _ _ sched env transaction options]
    hears_sendSignedTransaction [of _ _ sched env bytes]
  unfolding hears_iff by blast

text \<open>
  The caller of the example attaches its listeners at once; listener 1 is invoked when
  \<open>sent\<close> is emitted.
\<close>

theorem first_event_after_return_witness:
  "(Sent, 1) \<in> set (eager 0) \<and>
   Emitted Sent (PTransaction priced) [1]
     \<in> set (trace (sendTransaction node eager priced None)) \<and>
   (1::nat) \<in> set [1]"
proof -
  have "Emitted Sent (PTransaction priced) [1]
          \<in> set (trace (sendTransaction node eager priced None))"
    by (simp add: run_simps)
  moreover have "(Sent, 1) \<in> set (eager 0)"
    by (simp add: eager_def)
  ultimately show ?thesis
    using first_event_after_return [of node eager priced None "''0xf86c''"] by blast
qed

subsection \<open>Order of the lifecycle events\<close>

lemma orderedUpTo_created: "orderedUpTo 0 created"
  by (simp add: orderedUpTo_def world_simps)

lemma orderedUpTo_quiet [simp]:
  "orderedUpTo k (attach ls w) = orderedUpTo k w"
  "orderedUpTo k (called c w) = orderedUpTo k w"
  "orderedUpTo k (unhandled e w) = orderedUpTo k w"
  "orderedUpTo k (resolve r w) = orderedUpTo k w"
  "orderedUpTo k (snd (resolveGasPricing env sched tr opts w)) = orderedUpTo k w"
  "orderedUpTo k (snd (awaitReceipt env sched h w)) = orderedUpTo k w"
  by (simp_all add: orderedUpTo_def world_simps resolveGasPricing_simps awaitReceipt_simps
      emitted_append emitted_attached)

lemma orderedUpTo_mono: "orderedUpTo k w \<Longrightarrow> k \<le> k' \<Longrightarrow> orderedUpTo k' w"
  by (auto simp: orderedUpTo_def list_all_iff)

lemma orderedUpTo_emit:
  "orderedUpTo k w \<Longrightarrow> k \<le> stage t \<Longrightarrow> orderedUpTo (stage t) (emit t p w)"
  by (auto simp: orderedUpTo_def world_simps emitted_append sorted_append list_all_iff)

lemma orderedUpTo_emitIfListened:
  "orderedUpTo k w \<Longrightarrow> k \<le> stage t \<Longrightarrow> orderedUpTo (stage t) (emitIfListened t p w)"
  by (auto simp: orderedUpTo_def world_simps emitted_append sorted_append list_all_iff)

lemma orderedUpTo_watch:
  "orderedUpTo k w \<Longrightarrow> k \<le> 3 \<Longrightarrow>
   orderedUpTo 3 (watchTransactionForConfirmations env sched r h w)"
  by (auto simp: orderedUpTo_def world_simps emitted_append emitted_attached
      emitted_confirmations sorted_append list_all_iff)

lemma orderedUpTo_sendTransaction: "orderedUpTo 3 (sendTransaction env sched tr opts)"
proof -
  let ?w1 = "snd (resolveGasPricing env sched tr opts (attach (sched 0) created))"
  have w1: "orderedUpTo 0 ?w1"
    by (simp add: orderedUpTo_created)
  have w3: "orderedUpTo 0 (attach (sched 2) (called (RpcSendTransaction tx)
              (emitIfListened Sending (PTransaction tx) ?w1)))" for tx
    using orderedUpTo_emitIfListened [OF w1, of Sending] by simp
  have w5: "orderedUpTo 1 (emitIfListened TransactionHash (PHash h)
              (emitIfListened Sent (PTransaction tx)
                (attach (sched 2) (called (RpcSendTransaction tx)
                  (emitIfListened Sending (PTransaction tx) ?w1)))))" for tx h
    using orderedUpTo_emitIfListened
      [OF orderedUpTo_emitIfListened [OF w3, of Sent], of TransactionHash]
    by simp
  show ?thesis
  proof (cases rule: sendTransaction_outcomes [of env sched tr opts])
    case (PricingRejected e)
    then show ?thesis using orderedUpTo_mono [OF w1, of 3] by simp
  next
    case (BroadcastRejected tx e)
    then show ?thesis using orderedUpTo_mono [OF w3, of 3 tx] by simp
  next
    case (ReceiptRejected tx h e)
    then show ?thesis using orderedUpTo_mono [OF w5, of 3 h tx] by simp
  next
    case (Mined tx h r w7)
    have "orderedUpTo 2 w7"
      using orderedUpTo_emit [of 1 _ Receipt] w5 [of h tx] Mined(3) by simp
    then show ?thesis
      using Mined(4) orderedUpTo_watch [of 2 w7] orderedUpTo_mono [of 2 w7 3] by simp
  qed
qed

lemma orderedUpTo_sendSignedTransaction:
  "orderedUpTo 3 (sendSignedTransaction env sched transaction)"
proof -
  let ?w2 = "attach (sched 2) (called (RpcSendRawTransaction transaction)
               (emit Sending (PBytes transaction) (attach (sched 0) created)))"
  have "orderedUpTo 0 (attach (sched 0) created)"
    by (simp add: orderedUpTo_created)
  then have w2: "orderedUpTo 0 ?w2"
    using orderedUpTo_emit [of 0 _ Sending] by simp
  have w4: "orderedUpTo 1
              (emit TransactionHash (PHash h) (emit Sent (PBytes transaction) ?w2))" for h
    using orderedUpTo_emit [OF orderedUpTo_emit [OF w2, of Sent], of TransactionHash] by simp
  show ?thesis
  proof (cases rule: sendSignedTransaction_outcomes [of env transaction sched])
    case (BroadcastRejected e)
    then show ?thesis using orderedUpTo_mono [OF w2, of 3] by simp
  next
    case (ReceiptRejected h e)
    then show ?thesis using orderedUpTo_mono [OF w4, of 3 h] by simp
  next
    case (Mined h r)
    have "orderedUpTo 2 (resolve r (emit Receipt (PReceipt r)
            (snd (awaitReceipt env sched h (emit TransactionHash (PHash h)
              (emit Sent (PBytes transaction) ?w2))))))"
      using orderedUpTo_emit [of 1 _ Receipt] w4 [of h] by simp
    then show ?thesis
      using Mined(3) orderedUpTo_watch [of 2] by simp
  qed
qed

text \<open>
  C4. Within one submission the events are emitted in the order of their stages:
  \<open>sending\<close> before \<open>sent\<close> and \<open>transactionHash\<close>, those before \<open>receipt\<close>, and
  \<open>receipt\<close> before any \<open>confirmation\<close>; no event of a later stage is emitted before one
  of an earlier stage. This holds for every run of both entry points, complete or not.
\<close>

theorem lifecycle_events_in_stage_order:
  "sorted (map stage (emitted (trace (sendTransaction env sched transaction options)))) \<and>
   sorted (map stage (emitted (trace (sendSignedTransaction env sched bytes))))"
  using orderedUpTo_sendTransaction [of env sched transaction options]
    orderedUpTo_sendSignedTransaction [of env sched bytes]
  by (simp add: orderedUpTo_def)

text \<open>A run of each entry point whose stages all complete, with every event listened to.\<close>

theorem lifecycle_events_in_stage_order_witness:
  "emitted (trace (sendTransaction node eager unpriced None)) =
       [Sending, Sent, TransactionHash, Receipt, Confirmation, Confirmation] \<and>
   emitted (trace (sendSignedTransaction node eager ''0xf86c'')) =
       [Sending, Sent, TransactionHash, Receipt, Confirmation, Confirmation] \<and>
   sorted (map stage (emitted (trace (sendTransaction node eager unpriced None)))) \<and>
   sorted (map stage (emitted (trace (sendSignedTransaction node eager ''0xf86c''))))"
proof -
  have "emitted (trace (sendTransaction node eager unpriced None)) =
          [Sending, Sent, TransactionHash, Receipt, Confirmation, Confirmation]"
    by (simp add: run_simps)
  moreover have "emitted (trace (sendSignedTransaction node eager ''0xf86c'')) =
          [Sending, Sent, TransactionHash, Receipt, Confirmation, Confirmation]"
    by (simp add: run_simps)
  ultimately show ?thesis
    using lifecycle_events_in_stage_order [of node eager unpriced None "''0xf86c''"]
    by simp
qed

subsection \<open>Gas pricing resolution\<close>

lemma calls_append: "calls (xs @ ys) = calls xs @ calls ys"
  by (induction xs rule: calls.induct) simp_all

lemma calls_attached: "calls (map (\<lambda>(t, l). Attached t l) ls) = []"
  by (induction ls) auto

lemma calls_emitted: "calls (map (\<lambda>n. Emitted t (f n) (g n)) ns) = []"
  by (induction ns) auto

lemmas calls_simps = calls_append calls_attached calls_emitted if_distrib [of calls]

lemma calls_sendSignedTransaction:
  "GetTransactionGasPricing tx \<notin> set (calls (trace (sendSignedTransaction env sched bytes)))"
  by (cases rule: sendSignedTransaction_outcomes [of env bytes sched])
    (simp_all add: trace_simps calls_simps)

lemma calls_sendTransaction_pricing:
  "(\<exists>tx. GetTransactionGasPricing tx \<in> set (calls (trace (sendTransaction env sched transaction options))))
     \<longleftrightarrow> needsGasPricing transaction options"
  by (cases rule: sendTransaction_outcomes [of env sched transaction options])
    (simp_all add: trace_simps calls_simps)

lemma calls_sendTransaction_broadcast:
  assumes "\<not> needsGasPricing transaction options"
  shows "filter (\<lambda>c. \<exists>tx. c = RpcSendTransaction tx)
           (calls (trace (sendTransaction env sched transaction options))) =
         [RpcSendTransaction (formatTransaction env transaction)]"
  using assms
  by (cases rule: sendTransaction_outcomes [of env sched transaction options])
    (simp_all add: trace_simps calls_simps resolveGasPricing_fst)

text \<open>
  C3. \<open>sendTransaction\<close> calls the gas pricing resolver if and only if automatic pricing
  is not disabled, the legacy \<open>gasPrice\<close> is unset and the fee-market pair is not
  completely set. Otherwise exactly one broadcast is issued and it carries the formatted
  request as it is, so the pricing fields reach the broadcast unmodified.
  \<open>sendSignedTransaction\<close> never calls the resolver.
\<close>

theorem gas_pricing_gate:
  "((\<exists>tx. GetTransactionGasPricing tx
           \<in> set (calls (trace (sendTransaction env sched transaction options)))) \<longleftrightarrow>
      (\<not> truthy (case options of None \<Rightarrow> Undefined | Some os \<Rightarrow> get os ''ignoreGasPricing'') \<and>
       get transaction ''gasPrice'' = Undefined \<and>
       \<not> (get transaction ''maxPriorityFeePerGas'' \<noteq> Undefined \<and>
          get transaction ''maxFeePerGas'' \<noteq> Undefined))) \<and>
   (\<not> (\<not> truthy (case options of None \<Rightarrow> Undefined | Some os \<Rightarrow> get os ''ignoreGasPricing'') \<and>
       get transaction ''gasPrice'' = Undefined \<and>
       \<not> (get transaction ''maxPriorityFeePerGas'' \<noteq> Undefined \<and>
          get transaction ''maxFeePerGas'' \<noteq> Undefined)) \<longrightarrow>
      filter (\<lambda>c. \<exists>tx. c = RpcSendTransaction tx)
        (calls (trace (sendTransaction env sched transaction options))) =
      [RpcSendTransaction (formatTransaction env transaction)]) \<and>
   (\<forall>tx. GetTransactionGasPricing tx
           \<notin> set (calls (trace (sendSignedTransaction env sched bytes))))"
proof -
  have "needsGasPricing transaction options \<longleftrightarrow>
      (\<not> truthy (case options of None \<Rightarrow> Undefined | Some os \<Rightarrow> get os ''ignoreGasPricing'') \<and>
       get transaction ''gasPrice'' = Undefined \<and>
       \<not> (get transaction ''maxPriorityFeePerGas'' \<noteq> Undefined \<and>
          get transaction ''maxFeePerGas'' \<noteq> Undefined))"
    by (auto simp: needsGasPricing_def)
  then show ?thesis
    using calls_sendTransaction_pricing [of env sched transaction options]
      calls_sendTransaction_broadcast [of transaction options env sched]
      calls_sendSignedTransaction [of _ env sched bytes]
    by blast
qed

text \<open>
  A request without pricing fields is priced by the resolver; a request with a legacy
  gas price is broadcast as it is.
\<close>

theorem gas_pricing_gate_witness:
  "GetTransactionGasPricing unpriced
     \<in> set (calls (trace (sendTransaction node eager unpriced None))) \<and>
   get priced ''gasPrice'' = Str ''0x2'' \<and>
   filter (\<lambda>c. \<exists>tx. c = RpcSendTransaction tx)
     (calls (trace (sendTransaction node eager priced None))) =
   [RpcSendTransaction priced]"
proof -
  have "GetTransactionGasPricing unpriced
          \<in> set (calls (trace (sendTransaction node eager unpriced None)))"
    by (simp add: run_simps)
  moreover have "get priced ''gasPrice'' = Str ''0x2''"
    by (simp add: priced_def)
  moreover have "formatTransaction node priced = priced"
    by (simp add: node_def)
  ultimately show ?thesis
    using gas_pricing_gate [of node eager priced None "''0xf86c''"] by simp
qed

subsection \<open>Which events are emitted\<close>

lemma gated_iff:
  "gated w \<longleftrightarrow>
     (\<forall>t p ls. Emitted t p ls \<in> set (trace w) \<longrightarrow> t \<noteq> Receipt \<longrightarrow> ls \<noteq> [])"
  unfolding gated_def list_all_iff by (auto split: action.splits)

lemma gated_created: "gated created"
  by (simp add: gated_iff world_simps)

lemma gated_steps:
  "gated w \<Longrightarrow> gated (attach ls w)"
  "gated w \<Longrightarrow> gated (called c w)"
  "gated w \<Longrightarrow> gated (unhandled e w)"
  "gated w \<Longrightarrow> gated (resolve r w)"
  "gated w \<Longrightarrow> gated (emit Receipt p w)"
  "gated w \<Longrightarrow> gated (emitIfListened t p w)"
  "gated w \<Longrightarrow> gated (snd (resolveGasPricing env sched tr opts w))"
  "gated w \<Longrightarrow> gated (snd (awaitReceipt env sched h w))"
  by (auto simp: gated_iff trace_simps)

lemma gated_watch:
  "gated w \<Longrightarrow> 0 < listenerCount Confirmation w \<Longrightarrow>
   gated (watchTransactionForConfirmations env sched r h w)"
  by (auto simp: gated_iff trace_simps)

lemma gated_sendTransaction: "gated (sendTransaction env sched transaction options)"
proof (cases rule: sendTransaction_outcomes [of env sched transaction options])
  case (Mined tx h r w7)
  have "gated w7"
    unfolding Mined(3) by (intro gated_steps gated_created)
  then show ?thesis
    using Mined(4) gated_watch by simp
qed (simp_all add: gated_steps gated_created)

lemma trace_grows:
  "a \<in> set (trace w) \<Longrightarrow> a \<in> set (trace (attach ls w))"
  "a \<in> set (trace w) \<Longrightarrow> a \<in> set (trace (called c w))"
  "a \<in> set (trace w) \<Longrightarrow> a \<in> set (trace (unhandled e w))"
  "a \<in> set (trace w) \<Longrightarrow> a \<in> set (trace (resolve r w))"
  "a \<in> set (trace w) \<Longrightarrow> a \<in> set (trace (emit t p w))"
  "a \<in> set (trace w) \<Longrightarrow> a \<in> set (trace (emitIfListened t p w))"
  "a \<in> set (trace w) \<Longrightarrow> a \<in> set (trace (snd (resolveGasPricing env sched tr opts w)))"
  "a \<in> set (trace w) \<Longrightarrow> a \<in> set (trace (snd (awaitReceipt env sched h w)))"
  "a \<in> set (trace w) \<Longrightarrow> a \<in> set (trace (watchTransactionForConfirmations env sched r h w))"
  by (simp_all add: trace_simps)

lemma emit_here: "Emitted t p (registered t w) \<in> set (trace (emit t p w))"
  by (simp add: emit_simps)

lemma unhandled_here: "Unhandled e \<in> set (trace (unhandled e w))"
  by (simp add: unhandled_simps)

lemma resolve_emit_receipt:
  assumes "result w = Pending"
  shows "Emitted Receipt (PReceipt r) (registered Receipt w)
           \<in> set (trace (resolve r (emit Receipt (PReceipt r) w)))"
    and "result (resolve r (emit Receipt (PReceipt r) w)) = Fulfilled r"
  using assms by (simp_all add: emit_simps resolve_simps)

lemma mined_sendTransaction:
  assumes "\<And>e. Unhandled e \<notin> set (trace (sendTransaction env sched transaction options))"
  shows "\<exists>r. (\<exists>ls. Emitted Receipt (PReceipt r) ls
                  \<in> set (trace (sendTransaction env sched transaction options))) \<and>
             result (sendTransaction env sched transaction options) = Fulfilled r"
proof (cases rule: sendTransaction_outcomes [of env sched transaction options])
  case (PricingRejected e)
  then show ?thesis using assms [of e] unhandled_here by simp
next
  case (BroadcastRejected tx e)
  then show ?thesis using assms [of e] unhandled_here by simp
next
  case (ReceiptRejected tx h e)
  then show ?thesis using assms [of e] unhandled_here by simp
next
  case (Mined tx h r w7)
  obtain w6 where w7: "w7 = resolve r (emit Receipt (PReceipt r) w6)" and "result w6 = Pending"
    using Mined(3) by (simp add: trace_simps)
  then have "Emitted Receipt (PReceipt r) (registered Receipt w6) \<in> set (trace w7)"
    and "result w7 = Fulfilled r"
    using resolve_emit_receipt [of w6 r] by simp_all
  then have "Emitted Receipt (PReceipt r) (registered Receipt w6)
               \<in> set (trace (sendTransaction env sched transaction options)) \<and>
             result (sendTransaction env sched transaction options) = Fulfilled r"
    using Mined(4) trace_grows(9) [of _ w7] by (simp add: watch_simps(3))
  then show ?thesis by blast
qed

lemma unconditional_sendSignedTransaction:
  "\<exists>ls. Emitted Sending (PBytes bytes) ls \<in> set (trace (sendSignedTransaction env sched bytes))"
  "rpc_sendRawTransaction env bytes = Inr h \<Longrightarrow>
     (\<exists>ls. Emitted Sent (PBytes bytes) ls \<in> set (trace (sendSignedTransaction env sched bytes))) \<and>
     (\<exists>ls. Emitted TransactionHash (PHash h) ls \<in> set (trace (sendSignedTransaction env sched bytes)))"
proof -
  show "\<exists>ls. Emitted Sending (PBytes bytes) ls \<in> set (trace (sendSignedTransaction env sched bytes))"
    by (cases rule: sendSignedTransaction_outcomes [of env bytes sched])
      (simp; blast intro: trace_grows emit_here)+
  assume h: "rpc_sendRawTransaction env bytes = Inr h"
  show "(\<exists>ls. Emitted Sent (PBytes bytes) ls \<in> set (trace (sendSignedTransaction env sched bytes))) \<and>
     (\<exists>ls. Emitted TransactionHash (PHash h) ls \<in> set (trace (sendSignedTransaction env sched bytes)))"
    using h
    by (cases rule: sendSignedTransaction_outcomes [of env bytes sched])
      (simp; blast intro: trace_grows emit_here)+
qed

text \<open>
  C9. In \<open>sendTransaction\<close> a run that reaches inclusion (no awaited call rejects) has
  emitted \<open>receipt\<close> and resolved the result with that receipt, whatever listeners are
  registered, even none, whereas
  \<open>sending\<close>, \<open>sent\<close>, \<open>transactionHash\<close> and \<open>confirmation\<close> are only ever emitted to at
  least one listener. \<open>sendSignedTransaction\<close> always emits \<open>sending\<close> and, once the
  broadcast has answered, \<open>sent\<close> and \<open>transactionHash\<close>.
\<close>

theorem emission_conditions:
  "((\<forall>e. Unhandled e \<notin> set (trace (sendTransaction env sched transaction options))) \<longrightarrow>
      (\<exists>r. (\<exists>ls. Emitted Receipt (PReceipt r) ls
                  \<in> set (trace (sendTransaction env sched transaction options))) \<and>
           result (sendTransaction env sched transaction options) = Fulfilled r)) \<and>
   (\<forall>t p ls. Emitted t p ls \<in> set (trace (sendTransaction env sched transaction options)) \<longrightarrow>
      t \<in> {Sending, Sent, TransactionHash, Confirmation} \<longrightarrow> ls \<noteq> []) \<and>
   (\<exists>ls. Emitted Sending (PBytes bytes) ls
          \<in> set (trace (sendSignedTransaction env sched bytes))) \<and>
   (\<forall>h. rpc_sendRawTransaction env bytes = Inr h \<longrightarrow>
      (\<exists>ls. Emitted Sent (PBytes bytes) ls
             \<in> set (trace (sendSignedTransaction env sched bytes))) \<and>
      (\<exists>ls. Emitted TransactionHash (PHash h) ls
             \<in> set (trace (sendSignedTransaction env sched bytes))))"
proof -
  have "\<forall>t p ls. Emitted t p ls \<in> set (trace (sendTransaction env sched transaction options)) \<longrightarrow>
      t \<in> {Sending, Sent, TransactionHash, Confirmation} \<longrightarrow> ls \<noteq> []"
    using gated_sendTransaction [of env sched transaction options]
    unfolding gated_iff by blast
  then show ?thesis
    using mined_sendTransaction [of env sched transaction options]
      unconditional_sendSignedTransaction(1) [of bytes env sched]
      unconditional_sendSignedTransaction(2) [of env bytes _ sched]
    by blast
qed

text \<open>
  With no listener at all, \<open>sendTransaction\<close> emits \<open>receipt\<close> and nothing else, and
  \<open>sendSignedTransaction\<close> emits (to nobody) every event.
\<close>

theorem emission_conditions_witness:
  "emitted (trace (sendTransaction node silent priced None)) = [Receipt] \<and>
   emitted (trace (sendSignedTransaction node silent ''0xf86c'')) =
     [Sending, Sent, TransactionHash, Receipt, Confirmation, Confirmation] \<and>
   (\<exists>r. (\<exists>ls. Emitted Receipt (PReceipt r) ls
               \<in> set (trace (sendTransaction node silent priced None))) \<and>
        result (sendTransaction node silent priced None) = Fulfilled r)"
proof -
  have "trace (sendTransaction node silent priced None) =
          [Returned, Called (RpcSendTransaction priced),
           Called (RpcGetTransactionReceipt ''0xdead''),
           Called (WaitForTransactionReceipt ''0xdead''),
           Emitted Receipt (PReceipt receipt10) [], Resolved receipt10]"
    by (simp add: run_simps)
  moreover have "emitted (trace (sendSignedTransaction node silent ''0xf86c'')) =
          [Sending, Sent, TransactionHash, Receipt, Confirmation, Confirmation]"
    by (simp add: run_simps)
  ultimately show ?thesis
    using emission_conditions [of node silent priced None "''0xf86c''"] by simp
qed

subsection \<open>Delivery to listeners\<close>

lemma deliveries_append: "deliveries t l (xs @ ys) = deliveries t l xs + deliveries t l ys"
  by (induction t l xs rule: deliveries.induct) simp_all

lemma deliveries_attached: "deliveries t l (map (\<lambda>(t, l). Attached t l) ls) = 0"
  by (induction ls) auto

lemma deliveries_confirmations:
  "deliveries t l (map (\<lambda>n. Emitted t' (f n) ls) ns) =
     (if t' = t then length ns * count_list ls l else 0)"
  by (induction ns) auto

lemma count_listening:
  "count_list (map snd (filter (\<lambda>(t', l). t' = t) ls)) l = count_list ls (t, l)"
  by (induction ls) auto

lemma count_registered: "count_list (registered t w) l = count_list (listeners w) (t, l)"
  by (simp add: registered_def count_listening)

lemmas listeners_simps = attach_simps(1) emit_simps(1) emitIfListened_simps(1) called_simps(1)
  unhandled_simps(1) resolve_simps(1) created_simps(1) watch_simps(1)
  resolveGasPricing_simps(2) awaitReceipt_simps(2)

lemma deliveries_emit:
  "deliveries t l (trace (emit t' p w)) =
     deliveries t l (trace w) + (if t' = t then count_list (listeners w) (t, l) else 0)"
  by (simp add: emit_simps deliveries_append count_registered)

lemma deliveries_emitIfListened:
  "deliveries t l (trace (emitIfListened t' p w)) =
     deliveries t l (trace w) + (if t' = t then count_list (listeners w) (t, l) else 0)"
proof (cases "registered t' w = []")
  case True
  then have "count_list (listeners w) (t', l) = 0"
    using count_registered [of t' w l] by simp
  then show ?thesis
    using True by (auto simp: emitIfListened_def listenerCount_def)
next
  case False
  then show ?thesis
    by (simp add: emitIfListened_def listenerCount_def deliveries_emit)
qed

lemma deliveries_steps:
  "deliveries t l (trace created) = 0"
  "deliveries t l (trace (attach ls w)) = deliveries t l (trace w)"
  "deliveries t l (trace (called c w)) = deliveries t l (trace w)"
  "deliveries t l (trace (unhandled e w)) = deliveries t l (trace w)"
  "deliveries t l (trace (resolve r w)) = deliveries t l (trace w)"
  "deliveries t l (trace (snd (resolveGasPricing env sched tr opts w))) = deliveries t l (trace w)"
  "deliveries t l (trace (snd (awaitReceipt env sched h w))) = deliveries t l (trace w)"
  "deliveries t l (trace (watchTransactionForConfirmations env sched r h w)) =
     deliveries t l (trace w) +
     (if t = Confirmation
      then length (confirmations env r h) * count_list (listeners w @ sched 5) (t, l) else 0)"
  by (simp_all add: trace_simps deliveries_append deliveries_attached deliveries_confirmations
      count_registered count_listening)

lemmas deliveries_simps = deliveries_steps deliveries_emit deliveries_emitIfListened
  listeners_simps if_distrib [of "\<lambda>xs. count_list xs x" for x]

lemma no_replay_sendTransaction:
  assumes "\<And>j. j \<le> lastPoint t \<Longrightarrow> (t, l) \<notin> set (sched j)"
  shows "deliveries t l (trace (sendTransaction env sched transaction options)) = 0"
proof -
  have none: "count_list (sched j) (t, l) = 0" if "j \<le> lastPoint t" for j
    using assms [OF that] by simp
  show ?thesis
    using none
    by (cases rule: sendTransaction_outcomes [of env sched transaction options]; cases t)
      (simp_all add: deliveries_simps)
qed

lemma no_replay_sendSignedTransaction:
  assumes "\<And>j. j \<le> lastPoint t \<Longrightarrow> (t, l) \<notin> set (sched j)"
  shows "deliveries t l (trace (sendSignedTransaction env sched bytes)) = 0"
proof -
  have none: "count_list (sched j) (t, l) = 0" if "j \<le> lastPoint t" for j
    using assms [OF that] by simp
  show ?thesis
    using none
    by (cases rule: sendSignedTransaction_outcomes [of env bytes sched]; cases t)
      (simp_all add: deliveries_simps)
qed

text \<open>
  In every run, failed ones too, and for every tag: a listener that the caller attaches
  once, at a suspension point up to the last one before the tag's emission, is invoked
  exactly once for every event of that tag that the run emits.
\<close>

lemmas served_simps = served_def attach_simps emit_simps called_simps unhandled_simps
  resolve_simps created_simps emitted_append emitted_attached deliveries_append
  deliveries_attached count_registered list_all_iff

lemma served_created: "served t l k 0 created"
  by (simp add: served_simps)

lemma served_mono: "served t l k p w \<Longrightarrow> p \<le> p' \<Longrightarrow> served t l k p' w"
  by (auto simp: served_def list_all_iff split: if_splits)

lemma served_quiet:
  "served t l k p (called c w) = served t l k p w"
  "served t l k p (unhandled e w) = served t l k p w"
  "served t l k p (resolve r w) = served t l k p w"
  by (simp_all add: served_simps)

lemma served_attach:
  assumes "served t l k p w" and "k \<le> lastPoint t"
    and "count_list (sched k) (t, l) = 1" and "\<And>j. j \<noteq> k \<Longrightarrow> (t, l) \<notin> set (sched j)"
  shows "served t l k (Suc p) (attach (sched p) w)"
proof (cases "p = k")
  case True
  have "t \<notin> set (emitted (trace w))"
    using assms(1,2) True by (fastforce simp: served_def list_all_iff)
  then have "count_list (emitted (trace w)) t = 0"
    by simp
  then show ?thesis
    using assms(1,3) True by (auto simp: served_simps)
next
  case False
  then have "count_list (sched p) (t, l) = 0"
    using assms(4) by simp
  then show ?thesis
    using assms(1) False by (auto simp: served_simps split: if_splits)
qed

lemma served_attach_to:
  assumes "served t l k p w" and "k \<le> lastPoint t"
    and "count_list (sched k) (t, l) = 1" and "\<And>j. j \<noteq> k \<Longrightarrow> (t, l) \<notin> set (sched j)"
    and "p < p'"
  shows "served t l k p' (attach (sched p) w)"
  using served_mono [OF served_attach [of t l k p w sched], of p'] assms by simp

lemma served_emit:
  assumes "served t l k p w" and "lastPoint t' < p"
  shows "served t l k p (emit t' x w)"
  using assms by (auto simp: served_simps split: if_splits)

lemma served_emitIfListened:
  assumes "served t l k p w" and "lastPoint t' < p"
  shows "served t l k p (emitIfListened t' x w)"
  using assms served_emit [of t l k p w t' x]
  by (simp add: emitIfListened_def)

lemma served_fold_emit:
  "served t l k p w \<Longrightarrow> lastPoint t' < p \<Longrightarrow>
   served t l k p (fold (\<lambda>n. emit t' (f n)) ns w)"
  by (induction ns arbitrary: w) (simp_all add: served_emit)


lemma resolveGasPricing_snd:
  "snd (resolveGasPricing env sched tr opts w) =
     (if needsGasPricing tr opts
      then attach (sched 1) (called (GetTransactionGasPricing (formatTransaction env tr)) w)
      else w)"
  by (simp add: resolveGasPricing_def Let_def split: sum.splits)

lemma awaitReceipt_snd:
  "snd (awaitReceipt env sched h w) =
     (if rpc_getTransactionReceipt env h = Inr None
      then attach (sched 4) (called (WaitForTransactionReceipt h)
             (attach (sched 3) (called (RpcGetTransactionReceipt h) w)))
      else attach (sched 3) (called (RpcGetTransactionReceipt h) w))"
  by (simp add: awaitReceipt_def Let_def split: sum.splits option.splits)

lemma served_awaitReceipt:
  assumes "served t l k 3 w" and "k \<le> lastPoint t"
    and "count_list (sched k) (t, l) = 1" and "\<And>j. j \<noteq> k \<Longrightarrow> (t, l) \<notin> set (sched j)"
  shows "served t l k 5 (snd (awaitReceipt env sched h w))"
proof -
  have w3: "served t l k 4 (attach (sched 3) (called (RpcGetTransactionReceipt h) w))"
    using served_attach_to [of t l k 3 "called (RpcGetTransactionReceipt h) w" sched 4]
      assms by (simp add: served_quiet)
  have "served t l k 5 (attach (sched 4) (called (WaitForTransactionReceipt h)
          (attach (sched 3) (called (RpcGetTransactionReceipt h) w))))"
    using served_attach_to [of t l k 4 "called (WaitForTransactionReceipt h)
          (attach (sched 3) (called (RpcGetTransactionReceipt h) w))" sched 5]
      w3 assms(2-4) by (simp add: served_quiet)
  then show ?thesis
    using served_mono [OF w3, of 5] by (simp add: awaitReceipt_snd)
qed

lemma served_watch:
  assumes "served t l k 5 w" and "k \<le> lastPoint t"
    and "count_list (sched k) (t, l) = 1" and "\<And>j. j \<noteq> k \<Longrightarrow> (t, l) \<notin> set (sched j)"
  shows "served t l k 6 (watchTransactionForConfirmations env sched r h w)"
proof -
  have "served t l k 6 (attach (sched 5) (called (WatchTransactionForConfirmations r h) w))"
    using served_attach_to [of t l k 5 "called (WatchTransactionForConfirmations r h) w" sched 6]
      assms by (simp add: served_quiet)
  then show ?thesis
    unfolding watchTransactionForConfirmations_def
    by (rule served_fold_emit) simp
qed

lemma served_sendTransaction:
  assumes k: "k \<le> lastPoint t"
    and once: "count_list (sched k) (t, l) = 1"
    and other: "\<And>j. j \<noteq> k \<Longrightarrow> (t, l) \<notin> set (sched j)"
  shows "served t l k 6 (sendTransaction env sched transaction options)"
proof -
  let ?w1 = "snd (resolveGasPricing env sched transaction options (attach (sched 0) created))"
  have w0: "served t l k 1 (attach (sched 0) created)"
    using served_attach_to [of t l k 0 created sched 1] k once other
    by (simp add: served_created)
  have "served t l k 2
          (attach (sched 1)
            (called (GetTransactionGasPricing (formatTransaction env transaction))
              (attach (sched 0) created)))"
    using served_attach_to [of t l k 1
        "called (GetTransactionGasPricing (formatTransaction env transaction))
           (attach (sched 0) created)" sched 2]
      w0 k once other by (simp add: served_quiet)
  then have w1: "served t l k 2 ?w1"
    using served_mono [OF w0, of 2] by (simp add: resolveGasPricing_snd)
  have w3: "served t l k 3 (attach (sched 2) (called (RpcSendTransaction tx)
              (emitIfListened Sending (PTransaction tx) ?w1)))" for tx
    using served_attach_to [of t l k 2 "called (RpcSendTransaction tx)
              (emitIfListened Sending (PTransaction tx) ?w1)" sched 3]
      served_emitIfListened [OF w1, of Sending] k once other
    by (simp add: served_quiet)
  have w5: "served t l k 3 (emitIfListened TransactionHash (PHash h)
              (emitIfListened Sent (PTransaction tx)
                (attach (sched 2) (called (RpcSendTransaction tx)
                  (emitIfListened Sending (PTransaction tx) ?w1)))))" for tx h
    by (simp add: served_emitIfListened w3)
  note w6 = served_awaitReceipt [where sched = sched, OF w5 k once other]
  show ?thesis
  proof (cases rule: sendTransaction_outcomes [of env sched transaction options])
    case (PricingRejected e)
    then show ?thesis
      using served_mono [OF w1, of 6] by (simp add: served_quiet)
  next
    case (BroadcastRejected tx e)
    then show ?thesis
      using served_mono [OF w3, of 6 tx] by (simp add: served_quiet)
  next
    case (ReceiptRejected tx h e)
    then show ?thesis
      using served_mono [OF w6, of 6] by (simp add: served_quiet)
  next
    case (Mined tx h r w7)
    have w7: "served t l k 5 w7"
      unfolding Mined(3) by (simp add: served_quiet served_emit w6)
    show ?thesis
      using Mined(4) served_mono [OF w7, of 6] served_watch [where sched = sched, OF w7 k once other]
      by simp
  qed
qed

lemma served_sendSignedTransaction:
  assumes k: "k \<le> lastPoint t"
    and once: "count_list (sched k) (t, l) = 1"
    and other: "\<And>j. j \<noteq> k \<Longrightarrow> (t, l) \<notin> set (sched j)"
  shows "served t l k 6 (sendSignedTransaction env sched bytes)"
proof -
  let ?w2 = "attach (sched 2) (called (RpcSendRawTransaction bytes)
               (emit Sending (PBytes bytes) (attach (sched 0) created)))"
  have "served t l k 1 (attach (sched 0) created)"
    using served_attach_to [of t l k 0 created sched 1] k once other
    by (simp add: served_created)
  then have w1: "served t l k 2 (emit Sending (PBytes bytes) (attach (sched 0) created))"
    using served_mono [of t l k 1 _ 2] by (simp add: served_emit)
  have w2: "served t l k 3 ?w2"
    using served_attach_to [of t l k 2 "called (RpcSendRawTransaction bytes)
               (emit Sending (PBytes bytes) (attach (sched 0) created))" sched 3]
      w1 k once other by (simp add: served_quiet)
  have w4: "served t l k 3 (emit TransactionHash (PHash h) (emit Sent (PBytes bytes) ?w2))"
    for h
    by (simp add: served_emit w2)
  note w5 = served_awaitReceipt [where sched = sched, OF w4 k once other]
  show ?thesis
  proof (cases rule: sendSignedTransaction_outcomes [of env bytes sched])
    case (BroadcastRejected e)
    then show ?thesis
      using served_mono [OF w2, of 6] by (simp add: served_quiet)
  next
    case (ReceiptRejected h e)
    then show ?thesis
      using served_mono [OF w5, of 6] by (simp add: served_quiet)
  next
    case (Mined h r)
    have "served t l k 5 (resolve r (emit Receipt (PReceipt r)
            (snd (awaitReceipt env sched h (emit TransactionHash (PHash h)
              (emit Sent (PBytes bytes) ?w2))))))"
      by (simp add: served_quiet served_emit w5)
    then show ?thesis
      using Mined(3) served_watch [where sched = sched, OF _ k once other] by simp
  qed
qed

lemma served_once:
  assumes "served t l k p w" and "(t, l) \<in> set (listeners w)"
  shows "deliveries t l (trace w) = count_list (emitted (trace w)) t"
proof -
  have "count_list (listeners w) (t, l) \<noteq> 0"
    using assms(2) by (simp add: count_list_0_iff)
  then have "count_list (listeners w) (t, l) = 1"
    using assms(1) by (auto simp: served_def split: if_splits)
  then show ?thesis
    using assms(1) by (simp add: served_def)
qed

lemma every_event_once_sendTransaction:
  assumes "k \<le> lastPoint t" and "count_list (sched k) (t, l) = 1"
    and "\<And>j. j \<noteq> k \<Longrightarrow> (t, l) \<notin> set (sched j)"
    and "(t, l) \<in> set (listeners (sendTransaction env sched transaction options))"
  shows "deliveries t l (trace (sendTransaction env sched transaction options)) =
         count_list (emitted (trace (sendTransaction env sched transaction options))) t"
  using served_once [OF served_sendTransaction [where sched = sched, OF assms(1-3)] assms(4)] .

lemma every_event_once_sendSignedTransaction:
  assumes "k \<le> lastPoint t" and "count_list (sched k) (t, l) = 1"
    and "\<And>j. j \<noteq> k \<Longrightarrow> (t, l) \<notin> set (sched j)"
    and "(t, l) \<in> set (listeners (sendSignedTransaction env sched bytes))"
  shows "deliveries t l (trace (sendSignedTransaction env sched bytes)) =
         count_list (emitted (trace (sendSignedTransaction env sched bytes))) t"
  using served_once
    [OF served_sendSignedTransaction [where sched = sched, OF assms(1-3)] assms(4)] .

text \<open>
  C7. For every tag, an event fired before a listener is attached is not replayed to
  it, and a listener attached before the stage completes receives the stage's event
  exactly once. The first half holds for every tag (\<open>no_replay_sendTransaction\<close>,
  \<open>no_replay_sendSignedTransaction\<close>), and every event that is emitted reaches the
  listeners attached in time exactly once (\<open>every_event_once_sendTransaction\<close>,
  \<open>every_event_once_sendSignedTransaction\<close>). But the second half fails for \<open>error\<close>:
  the code never emits it. With a node that rejects the broadcast, the listener attached
  for \<open>error\<close> right after the call is registered before the submission fails and is
  never invoked, while the listener for \<open>sending\<close> got its event once.
\<close>

theorem error_listener_is_never_invoked:
  "(Error, 5) \<in> set (eager 0) \<and>
   (Error, 5) \<in> set (listeners (sendTransaction
      (node\<lparr>rpc_sendTransaction := (\<lambda>t. Inl (TransportError ''intrinsic gas too low''))\<rparr>)
      eager priced None)) \<and>
   Unhandled (TransportError ''intrinsic gas too low'') \<in> set (trace (sendTransaction
      (node\<lparr>rpc_sendTransaction := (\<lambda>t. Inl (TransportError ''intrinsic gas too low''))\<rparr>)
      eager priced None)) \<and>
   deliveries Error 5 (trace (sendTransaction
      (node\<lparr>rpc_sendTransaction := (\<lambda>t. Inl (TransportError ''intrinsic gas too low''))\<rparr>)
      eager priced None)) = 0 \<and>
   deliveries Sending 0 (trace (sendTransaction
      (node\<lparr>rpc_sendTransaction := (\<lambda>t. Inl (TransportError ''intrinsic gas too low''))\<rparr>)
      eager priced None)) = 1"
  by (simp add: run_simps)

subsection \<open>Start of the confirmation watcher\<close>

lemma watcher_gate_sendTransaction:
  assumes "\<And>j l. j \<le> 4 \<Longrightarrow> (Confirmation, l) \<notin> set (sched j)"
  shows "WatchTransactionForConfirmations r h
           \<notin> set (calls (trace (sendTransaction env sched transaction options)))"
proof -
  have none: "filter (\<lambda>(t', l). t' = Confirmation) (sched j) = []" if "j \<le> 4" for j
    using assms [OF that] by (auto simp: filter_empty_conv)
  show ?thesis
    using none
    by (cases rule: sendTransaction_outcomes [of env sched transaction options])
      (simp_all add: trace_simps calls_simps registered_def)
qed

text \<open>
  C2. Confirmation watching is to start only if a \<open>confirmation\<close> listener is registered
  when the receipt resolves. \<open>sendTransaction\<close> checks the listener count
  (\<open>watcher_gate_sendTransaction\<close>); \<open>sendSignedTransaction\<close> does not: with no listener at
  all it calls the watcher, where \<open>sendTransaction\<close> on the same node does not.
\<close>

theorem signed_path_watches_without_listener:
  "listeners (sendSignedTransaction node silent ''0xf86c'') = [] \<and>
   trace (sendSignedTransaction node silent ''0xf86c'') =
     [Returned,
      Emitted Sending (PBytes ''0xf86c'') [],
      Called (RpcSendRawTransaction ''0xf86c''),
      Emitted Sent (PBytes ''0xf86c'') [],
      Emitted TransactionHash (PHash ''0xdead'') [],
      Called (RpcGetTransactionReceipt ''0xdead''),
      Called (WaitForTransactionReceipt ''0xdead''),
      Emitted Receipt (PReceipt receipt10) [],
      Resolved receipt10,
      Called (WatchTransactionForConfirmations receipt10 ''0xdead''),
      Emitted Confirmation (PConfirmation 1) [],
      Emitted Confirmation (PConfirmation 2) []] \<and>
   calls (trace (sendTransaction node silent priced None)) =
     [RpcSendTransaction priced, RpcGetTransactionReceipt ''0xdead'',
      WaitForTransactionReceipt ''0xdead'']"
  by (simp add: run_simps)

subsection \<open>Errors of the collaborators\<close>

text \<open>
  Whatever the collaborators answer, neither entry point ever rejects the result or
  emits an \<open>error\<close> event.
\<close>

lemma errors_never_surfaced:
  "result (sendTransaction env sched transaction options) \<noteq> Rejected e"
  "Error \<notin> set (emitted (trace (sendTransaction env sched transaction options)))"
  "result (sendSignedTransaction env sched bytes) \<noteq> Rejected e"
  "Error \<notin> set (emitted (trace (sendSignedTransaction env sched bytes)))"
proof -
  show "result (sendTransaction env sched transaction options) \<noteq> Rejected e"
    by (cases rule: sendTransaction_outcomes [of env sched transaction options])
      (simp_all add: trace_simps)
  show "result (sendSignedTransaction env sched bytes) \<noteq> Rejected e"
    by (cases rule: sendSignedTransaction_outcomes [of env bytes sched])
      (simp_all add: trace_simps)
  show "Error \<notin> set (emitted (trace (sendTransaction env sched transaction options)))"
    using orderedUpTo_sendTransaction [of env sched transaction options]
    by (auto simp: orderedUpTo_def list_all_iff)
  show "Error \<notin> set (emitted (trace (sendSignedTransaction env sched bytes)))"
    using orderedUpTo_sendSignedTransaction [of env sched bytes]
    by (auto simp: orderedUpTo_def list_all_iff)
qed

text \<open>
  C1. An error raised by the RPC client during the broadcast is to reject the terminal
  result and to be emitted as an \<open>error\<close> event. The code does neither: with a node that
  rejects the broadcast and a caller listening to every tag, \<open>error\<close> included, the run
  ends with the unhandled rejection of the detached body; no \<open>error\<close> event is emitted
  and the result stays pending.
\<close>

theorem broadcast_error_is_not_surfaced:
  "trace (sendTransaction
      (node\<lparr>rpc_sendTransaction := (\<lambda>t. Inl (TransportError ''intrinsic gas too low''))\<rparr>)
      eager priced None) =
     [Returned, Attached Sending 0, Attached Sent 1, Attached TransactionHash 2,
      Attached Receipt 3, Attached Confirmation 4, Attached Error 5,
      Emitted Sending (PTransaction priced) [0],
      Called (RpcSendTransaction priced),
      Unhandled (TransportError ''intrinsic gas too low'')] \<and>
   result (sendTransaction
      (node\<lparr>rpc_sendTransaction := (\<lambda>t. Inl (TransportError ''intrinsic gas too low''))\<rparr>)
      eager priced None) = Pending"
  by (simp add: run_simps)

text \<open>
  When the pricing step is entered and the resolver rejects, nothing is broadcast and no
  event is emitted; the result stays pending.
\<close>

lemma pricing_failure_aborts:
  assumes "needsGasPricing transaction options"
    and "getTransactionGasPricing env (formatTransaction env transaction) = Inl e"
  shows "calls (trace (sendTransaction env sched transaction options)) =
           [GetTransactionGasPricing (formatTransaction env transaction)]"
    and "emitted (trace (sendTransaction env sched transaction options)) = []"
    and "result (sendTransaction env sched transaction options) = Pending"
    and "Unhandled e \<in> set (trace (sendTransaction env sched transaction options))"
  using assms
  by (cases rule: sendTransaction_outcomes [of env sched transaction options];
      simp add: trace_simps calls_simps resolveGasPricing_fst)+

text \<open>
  C5. A failure of gas pricing resolution is to abort the submission before any
  broadcast and to be surfaced as a pricing error. With a resolver that rejects, the
  code issues no broadcast, and that half holds in general (\<open>pricing_failure_aborts\<close>);
  but the failure is not surfaced: it ends the detached body as an unhandled rejection,
  no \<open>error\<close> event reaches the listener attached for it and the result stays pending.
\<close>

theorem pricing_error_is_not_surfaced:
  "trace (sendTransaction
      (node\<lparr>getTransactionGasPricing := (\<lambda>t. Inl (PricingError ''fee history unavailable''))\<rparr>)
      eager unpriced None) =
     [Returned, Attached Sending 0, Attached Sent 1, Attached TransactionHash 2,
      Attached Receipt 3, Attached Confirmation 4, Attached Error 5,
      Called (GetTransactionGasPricing unpriced),
      Unhandled (PricingError ''fee history unavailable'')] \<and>
   result (sendTransaction
      (node\<lparr>getTransactionGasPricing := (\<lambda>t. Inl (PricingError ''fee history unavailable''))\<rparr>)
      eager unpriced None) = Pending"
  by (simp add: run_simps)

text \<open>
  The poller of the spec ends with a timeout failure, not with a transport error, when
  every attempt of its budget finds the receipt absent.
\<close>

lemma poll_absent:
  "(\<And>j. j < budget \<Longrightarrow> query (i + j) = Inr None) \<Longrightarrow>
   poll query budget i = Inl (TimeoutError ''transaction receipt polling timed out'')"
proof (induction budget arbitrary: i)
  case 0
  then show ?case by simp
next
  case (Suc budget)
  have "query i = Inr None"
    using Suc.prems [of 0] by simp
  moreover have "poll query budget (Suc i) =
      Inl (TimeoutError ''transaction receipt polling timed out'')"
    using Suc.prems [of "Suc j" for j] by (intro Suc.IH) simp
  ultimately show ?case by simp
qed

text \<open>
  C8. When every poll attempt up to the deadline finds the receipt absent, the result is
  to reject with a timeout error. The first query of \<open>sendTransaction\<close> treats the absent
  receipt as no error and hands over to the poller, and the poller (here with a budget
  of three attempts) fails with the timeout error; but \<open>sendTransaction\<close> does not pass
  the failure on: the result stays pending and no \<open>error\<close> event is emitted.
\<close>

theorem receipt_timeout_is_not_surfaced:
  "waitForTransactionReceipt
      (node\<lparr>waitForTransactionReceipt := (\<lambda>h. poll (\<lambda>i. Inr None) 3 0)\<rparr>) ''0xdead'' =
     Inl (TimeoutError ''transaction receipt polling timed out'') \<and>
   trace (sendTransaction
      (node\<lparr>waitForTransactionReceipt := (\<lambda>h. poll (\<lambda>i. Inr None) 3 0)\<rparr>)
      eager priced None) =
     [Returned, Attached Sending 0, Attached Sent 1, Attached TransactionHash 2,
      Attached Receipt 3, Attached Confirmation 4, Attached Error 5,
      Emitted Sending (PTransaction priced) [0],
      Called (RpcSendTransaction priced),
      Emitted Sent (PTransaction priced) [1],
      Emitted TransactionHash (PHash ''0xdead'') [2],
      Called (RpcGetTransactionReceipt ''0xdead''),
      Called (WaitForTransactionReceipt ''0xdead''),
      Unhandled (TimeoutError ''transaction receipt polling timed out'')] \<and>
   result (sendTransaction
      (node\<lparr>waitForTransactionReceipt := (\<lambda>h. poll (\<lambda>i. Inr None) 3 0)\<rparr>)
      eager priced None) = Pending"
  by (simp add: run_simps poll_absent)

subsection \<open>Web3Eth.getSha3\<close>

lemma get_put: "get (put k v ps) k' = (if k' = k then v else get ps k')"
  by (induction ps) auto

text \<open>
  C10. \<open>getSha3\<close> issues exactly one request; its method is \<open>eth_sha3\<close> and its params are
  the empty list whatever the \<open>data\<close> argument and the options are; two calls that differ
  only in \<open>data\<close> issue the same request and, against the same node, get the same outcome.
\<close>

theorem getSha3_ignores_data:
  "(\<exists>request. fst (getSha3 send data rpcOptions) = [request]
       \<and> get request ''method'' = Str ''eth_sha3''
       \<and> get request ''params'' = Arr [])
   \<and> getSha3 send data rpcOptions = getSha3 send data' rpcOptions"
  by (simp add: getSha3_def Let_def get_put)

end
